theory Spec2Isabelle
  imports Complex_Main "HOL-Library.Word"
begin

section \<open>Python values used by \<open>ehualu_yolo.py\<close>\<close>

text \<open>
  Exceptions of the script are values. \<open>ExternalError\<close> stands for whatever an external
  collaborator (Keras, TensorFlow, PIL, pandas) raises; its payload only tells two such
  failures apart.
\<close>

datatype error =
    AssertionError string
  | IndexError
  | ValueError
  | TypeError
  | ZeroDivisionError
  | OSError
  | ExternalError string

text \<open>\<open>str\<close> of a Python integer (and of a NumPy integer scalar): decimal digits, with a
  leading minus sign for a negative value.\<close>

definition digit_char :: "nat \<Rightarrow> char" where
  "digit_char d = ''0123456789'' ! d"

fun str_nat :: "nat \<Rightarrow> string" where
  "str_nat n = (if n < 10 then [digit_char n] else str_nat (n div 10) @ [digit_char (n mod 10)])"

declare str_nat.simps [simp del]

definition str_int :: "int \<Rightarrow> string" where
  "str_int k = (if k < 0 then CHR ''-'' # str_nat (nat (- k)) else str_nat (nat k))"

text \<open>\<open>sep.join(xs)\<close>.\<close>

fun str_join :: "string \<Rightarrow> string list \<Rightarrow> string" where
  "str_join sep [] = []"
| "str_join sep [x] = x"
| "str_join sep (x # y # ys) = x @ sep @ str_join sep (y # ys)"

text \<open>\<open>xs[i]\<close> for an index that \<open>enumerate\<close> produced (never negative): past the end it
  raises \<open>IndexError\<close>, for a list and for a NumPy array alike.\<close>

definition getitem :: "'a list \<Rightarrow> nat \<Rightarrow> error + 'a" where
  "getitem xs i = (if i < length xs then Inr (xs ! i) else Inl IndexError)"

text \<open>
  The numbers the encoder computes with are of two kinds: Python integers (the literal
  \<open>0\<close>, the image size) and NumPy \<open>int32\<close> scalars (the result of \<open>astype('int32')\<close>).
  Python's \<open>max(a, b)\<close> returns \<open>a\<close> unless \<open>b\<close> is greater, \<open>min(a, b)\<close> returns \<open>a\<close>
  unless \<open>b\<close> is smaller; both return one of their arguments unchanged, so the result
  keeps its kind. A difference of two \<open>int32\<close> scalars is an \<open>int32\<close> scalar and wraps
  around; a difference with a Python integer among the operands is exact for operands of
  the size of an image dimension.
\<close>

datatype pynum = PyInt int | NpInt32 "32 word"

fun num_val :: "pynum \<Rightarrow> int" where
  "num_val (PyInt k) = k"
| "num_val (NpInt32 w) = sint w"

definition py_max :: "pynum \<Rightarrow> pynum \<Rightarrow> pynum" where
  "py_max a b = (if num_val a < num_val b then b else a)"

definition py_min :: "pynum \<Rightarrow> pynum \<Rightarrow> pynum" where
  "py_min a b = (if num_val b < num_val a then b else a)"

fun num_sub :: "pynum \<Rightarrow> pynum \<Rightarrow> pynum" where
  "num_sub (NpInt32 a) (NpInt32 b) = NpInt32 (a - b)"
| "num_sub a b = PyInt (num_val a - num_val b)"

definition str_num :: "pynum \<Rightarrow> string" where
  "str_num a = str_int (num_val a)"

text \<open>
  A box coordinate is a finite \<open>float32\<close>; every such value is a real number, and
  \<open>np.round\<close> of it (round to the nearest integer, a tie to the even neighbour) is exact.
  \<open>astype('int32')\<close> of the rounded value is that integer when it fits 32 bits; what it
  gives beyond that depends on the platform, so the conversion there is the parameter
  \<open>oor\<close>.
\<close>

definition np_round :: "real \<Rightarrow> int" where
  "np_round x =
     (let f = \<lfloor>x\<rfloor>; d = x - of_int f
      in if d < 1 / 2 then f else if 1 / 2 < d then f + 1 else if even f then f else f + 1)"

definition fits_int32 :: "int \<Rightarrow> bool" where
  "fits_int32 v = (- (2 ^ 31) \<le> v \<and> v < 2 ^ 31)"

definition astype_int32 :: "(int \<Rightarrow> 32 word) \<Rightarrow> int \<Rightarrow> 32 word" where
  "astype_int32 oor v = (if fits_int32 v then word_of_int v else oor v)"

text \<open>A PIL image: its size and its pixel data, which only the collaborators read.\<close>

record 'p image =
  width :: int
  height :: int
  pixels :: 'p

type_synonym box = "real \<times> real \<times> real \<times> real"

section \<open>The result encoder: \<open>YOLO.convert_result_to_str\<close>\<close>

text \<open>The four statements that clamp one box (\<open>top, left, bottom, right = box\<close> and the
  \<open>max\<close>/\<open>min\<close> lines), then the string of one detection.\<close>

definition clamp_box :: "(int \<Rightarrow> 32 word) \<Rightarrow> 'p image \<Rightarrow> box \<Rightarrow> pynum \<times> pynum \<times> pynum \<times> pynum" where
  "clamp_box oor img bx =
     (case bx of (b_top, b_left, b_bottom, b_right) \<Rightarrow>
        (py_max (PyInt 0) (NpInt32 (astype_int32 oor (np_round b_top))),
         py_max (PyInt 0) (NpInt32 (astype_int32 oor (np_round b_left))),
         py_min (PyInt (height img)) (NpInt32 (astype_int32 oor (np_round b_bottom))),
         py_min (PyInt (width img)) (NpInt32 (astype_int32 oor (np_round b_right)))))"

definition box_str :: "(int \<Rightarrow> 32 word) \<Rightarrow> 'p image \<Rightarrow> box \<Rightarrow> string" where
  "box_str oor img bx =
     (case clamp_box oor img bx of (c_top, c_left, c_bottom, c_right) \<Rightarrow>
        let c_width = num_sub c_right c_left;
            c_height = num_sub c_bottom c_top
        in str_join ''_'' [str_num c_left, str_num c_top, str_num c_width, str_num c_height])"

text \<open>The loop \<open>for i, c in reversed(list(enumerate(classes)))\<close> with its accumulator
  \<open>out_str\<close>; \<open>boxes[i]\<close> and \<open>scores[i]\<close> are read in every round.\<close>

fun convert_loop ::
  "(int \<Rightarrow> 32 word) \<Rightarrow> box list \<Rightarrow> real list \<Rightarrow> 'p image \<Rightarrow> (nat \<times> int) list \<Rightarrow> string
     \<Rightarrow> error + string" where
  "convert_loop oor boxes scores img [] out_str = Inr out_str"
| "convert_loop oor boxes scores img ((i, c) # rest) out_str =
     (case getitem boxes i of
        Inl e \<Rightarrow> Inl e
      | Inr bx \<Rightarrow>
          (case getitem scores i of
             Inl e \<Rightarrow> Inl e
           | Inr score \<Rightarrow>
               let out_str1 = out_str @ box_str oor img bx;
                   out_str2 = (if 0 < i then out_str1 @ '';'' else out_str1)
               in convert_loop oor boxes scores img rest out_str2))"

definition convert_result_to_str ::
  "(int \<Rightarrow> 32 word) \<Rightarrow> box list \<Rightarrow> real list \<Rightarrow> int list \<Rightarrow> 'p image \<Rightarrow> error + string" where
  "convert_result_to_str oor boxes scores classes img =
     convert_loop oor boxes scores img (rev (enumerate 0 classes)) ''''"

section \<open>The collaborators\<close>

text \<open>
  The operating system and PIL, as far as the script uses them. A text file is its decoded
  content (ASCII, newlines already translated to the line feed as Python's text mode does);
  \<open>open_text\<close>, \<open>listdir\<close> and \<open>image_open\<close> give \<open>None\<close> where the call raises.
  \<open>expanduser\<close> and \<open>path_join\<close> are the functions of \<open>os.path\<close>; \<open>csv_error\<close> tells
  whether \<open>DataFrame.to_csv\<close> raises for a path.
\<close>

record 'p os =
  expanduser :: "string \<Rightarrow> string"
  open_text :: "string \<Rightarrow> string option"
  listdir :: "string \<Rightarrow> string list option"
  isdir :: "string \<Rightarrow> bool"
  path_join :: "string \<Rightarrow> string \<Rightarrow> string"
  image_open :: "string \<Rightarrow> 'p image option"
  csv_error :: "string \<Rightarrow> error option"

text \<open>
  Keras. \<open>load_model\<close> gives \<open>None\<close> where it raises (the bare \<open>except\<close> of \<open>generate\<close>
  does not look at the exception). \<open>load_weights\<close> stands for constructing the body and
  loading the weights into it, and gives the exception if one is raised. \<open>channels_match\<close>
  is the comparison of the direct-load path,
  \<open>layers[-1].output_shape[-1] == num_anchors/len(output) * (num_classes + 5)\<close>, which is
  evaluated in floating point and may itself raise.
\<close>

datatype body = Tiny_yolo_body nat nat | Yolo_body nat nat

datatype 'm yolo_model = Loaded 'm | Constructed body

record 'm keras =
  load_model :: "string \<Rightarrow> 'm option"
  load_weights :: "body \<Rightarrow> string \<Rightarrow> error option"
  channels_match :: "'m \<Rightarrow> nat \<Rightarrow> nat \<Rightarrow> error + bool"

section \<open>The configuration loader: \<open>YOLO._get_class\<close> and \<open>YOLO._get_anchors\<close>\<close>

definition newline :: char where
  "newline = CHR 0x0A"

text \<open>\<open>f.readlines()\<close>: the lines of the text, each with its line feed; the last line has
  none when the text does not end with one. \<open>f.readline()\<close> on a fresh file: the first of
  them, or the empty string at the end of the file.\<close>

fun readlines :: "string \<Rightarrow> string list" where
  "readlines [] = []"
| "readlines (c # cs) =
     (if c = newline then [c] # readlines cs
      else (case readlines cs of [] \<Rightarrow> [[c]] | l # ls \<Rightarrow> (c # l) # ls))"

fun readline :: "string \<Rightarrow> string" where
  "readline [] = []"
| "readline (c # cs) = (if c = newline then [c] else c # readline cs)"

text \<open>\<open>str.isspace\<close> on an ASCII character, and \<open>str.strip()\<close>.\<close>

definition isspace :: "char \<Rightarrow> bool" where
  "isspace c = (c \<in> set [CHR 0x09, CHR 0x0A, CHR 0x0B, CHR 0x0C, CHR 0x0D,
                           CHR 0x1C, CHR 0x1D, CHR 0x1E, CHR 0x1F, CHR 0x20])"

definition strip :: "string \<Rightarrow> string" where
  "strip s = rev (dropWhile isspace (rev (dropWhile isspace s)))"

definition get_class :: "'p os \<Rightarrow> string \<Rightarrow> error + string list" where
  "get_class os self_classes_path =
     (let classes_path = expanduser os self_classes_path
      in case open_text os classes_path of
           None \<Rightarrow> Inl OSError
         | Some f \<Rightarrow>
             let class_names = readlines f;
                 class_names = map strip class_names
             in Inr class_names)"

text \<open>\<open>s.split(',')\<close>, for a separator of one character: one piece more than there are
  separators.\<close>

fun str_split :: "string \<Rightarrow> char \<Rightarrow> string list" where
  "str_split [] sep = [[]]"
| "str_split (c # cs) sep =
     (if c = sep then [] # str_split cs sep
      else (case str_split cs sep of [] \<Rightarrow> [[c]] | w # ws \<Rightarrow> (c # w) # ws))"

text \<open>The comprehension \<open>[float(x) for x in ...]\<close>: Python's \<open>float\<close> is the parameter
  \<open>float\<close>, \<open>None\<close> where it raises \<open>ValueError\<close>; the first token it rejects ends the
  comprehension.\<close>

fun float_each :: "(string \<Rightarrow> 'f option) \<Rightarrow> string list \<Rightarrow> error + 'f list" where
  "float_each float [] = Inr []"
| "float_each float (x # xs) =
     (case float x of
        None \<Rightarrow> Inl ValueError
      | Some v \<Rightarrow> (case float_each float xs of Inl e \<Rightarrow> Inl e | Inr vs \<Rightarrow> Inr (v # vs)))"

text \<open>\<open>np.array(anchors).reshape(-1, 2)\<close>: rows of two, in order; an odd number of
  elements raises \<open>ValueError\<close>.\<close>

fun rows2 :: "'a list \<Rightarrow> ('a \<times> 'a) list" where
  "rows2 (x # y # zs) = (x, y) # rows2 zs"
| "rows2 _ = []"

definition reshape2 :: "'a list \<Rightarrow> error + ('a \<times> 'a) list" where
  "reshape2 xs = (if even (length xs) then Inr (rows2 xs) else Inl ValueError)"

definition get_anchors :: "(string \<Rightarrow> 'f option) \<Rightarrow> 'p os \<Rightarrow> string \<Rightarrow> error + ('f \<times> 'f) list" where
  "get_anchors float os self_anchors_path =
     (let anchors_path = expanduser os self_anchors_path
      in case open_text os anchors_path of
           None \<Rightarrow> Inl OSError
         | Some f \<Rightarrow>
             let anchors = readline f
             in (case float_each float (str_split anchors CHR '','') of
                   Inl e \<Rightarrow> Inl e
                 | Inr anchors \<Rightarrow> reshape2 anchors))"

section \<open>The model provider: \<open>YOLO.generate\<close>\<close>

definition endswith :: "string \<Rightarrow> string \<Rightarrow> bool" where
  "endswith s suffix =
     (length suffix \<le> length s \<and> drop (length s - length suffix) s = suffix)"

text \<open>
  \<open>generate\<close> up to the point where \<open>self.yolo_model\<close> is set: the assertion on the
  expanded path, the attempt to load the whole model, and on its failure the choice of the
  body by the number of anchors, with the weights read from the path as given. The
  confirmation line, the colour table and the construction of the evaluation graph follow
  in the source and are not part of the model.
\<close>

definition generate ::
  "'p os \<Rightarrow> 'm keras \<Rightarrow> string \<Rightarrow> 'a list \<Rightarrow> string list \<Rightarrow> error + 'm yolo_model" where
  "generate os keras self_model_path anchors class_names =
     (let model_path = expanduser os self_model_path
      in if \<not> endswith model_path ''.h5''
         then Inl (AssertionError ''Keras model or weights must be a .h5 file.'')
         else
           let num_anchors = length anchors;
               num_classes = length class_names;
               is_tiny_version = (num_anchors = 6)
           in (case load_model keras model_path of
                 None \<Rightarrow>
                   let yolo_body =
                         (if is_tiny_version then Tiny_yolo_body (num_anchors div 2) num_classes
                          else Yolo_body (num_anchors div 3) num_classes)
                   in (case load_weights keras yolo_body self_model_path of
                         Some e \<Rightarrow> Inl e
                       | None \<Rightarrow> Inr (Constructed yolo_body))
               | Some m \<Rightarrow>
                   (case channels_match keras m num_anchors num_classes of
                      Inl e \<Rightarrow> Inl e
                    | Inr ok \<Rightarrow>
                        if ok then Inr (Loaded m)
                        else Inl (AssertionError
                               ''Mismatch between model and given anchor and class sizes''))))"

text \<open>\<open>YOLO.__init__\<close>: the class names, the anchors, then \<open>generate\<close>.\<close>

record ('f, 'm) yolo =
  model_path :: string
  anchors_path :: string
  classes_path :: string
  score :: real
  iou :: real
  class_names :: "string list"
  anchors :: "('f \<times> 'f) list"
  model_image_size :: "int option \<times> int option"
  yolo_model :: "'m yolo_model"

definition yolo_init ::
  "'p os \<Rightarrow> (string \<Rightarrow> 'f option) \<Rightarrow> 'm keras \<Rightarrow> string \<Rightarrow> string \<Rightarrow> string
     \<Rightarrow> error + ('f, 'm) yolo" where
  "yolo_init os float keras a_model_path a_classes_path a_anchors_path =
     (case get_class os a_classes_path of
        Inl e \<Rightarrow> Inl e
      | Inr names \<Rightarrow>
          (case get_anchors float os a_anchors_path of
             Inl e \<Rightarrow> Inl e
           | Inr anchs \<Rightarrow>
               (case generate os keras a_model_path anchs names of
                  Inl e \<Rightarrow> Inl e
                | Inr m \<Rightarrow>
                    Inr \<lparr>model_path = a_model_path, anchors_path = a_anchors_path,
                         classes_path = a_classes_path, score = 3 / 10, iou = 45 / 100,
                         class_names = names, anchors = anchs,
                         model_image_size = (Some 416, Some 416), yolo_model = m\<rparr>)))"

section \<open>The detector: \<open>YOLO.detect_image\<close>\<close>

text \<open>
  The size handed to \<open>letterbox_image\<close>. \<open>self.model_image_size\<close>, here \<open>size_hw\<close>, is a pair \<open>(h, w)\<close> whose
  components are integers or \<open>None\<close>; with a fixed size the two assertions run first and
  the pair is reversed, without one the image's own size is taken down to multiples of 32.
  A pair with one \<open>None\<close> differs from \<open>(None, None)\<close>, and \<open>None % 32\<close> raises.
\<close>

definition letterbox_size :: "int option \<times> int option \<Rightarrow> 'p image \<Rightarrow> error + int \<times> int" where
  "letterbox_size size_hw img =
     (if size_hw \<noteq> (None, None) then
        (case fst size_hw of
           None \<Rightarrow> Inl TypeError
         | Some h \<Rightarrow>
             if h mod 32 \<noteq> 0 then Inl (AssertionError ''Multiples of 32 required'')
             else
               (case snd size_hw of
                  None \<Rightarrow> Inl TypeError
                | Some w \<Rightarrow>
                    if w mod 32 \<noteq> 0 then Inl (AssertionError ''Multiples of 32 required'')
                    else Inr (w, h)))
      else Inr (width img - width img mod 32, height img - height img mod 32))"

text \<open>
  The TensorFlow side of \<open>detect_image\<close>: \<open>letterbox_image\<close>, and \<open>sess_run\<close> for the
  conversion to an array and the session call, fed with the boxed image and the original
  \<open>(height, width)\<close>; each gives its exception if it raises.
\<close>

record ('p, 'b) backend =
  letterbox_image :: "'p image \<Rightarrow> int \<times> int \<Rightarrow> error + 'b"
  sess_run :: "'b \<Rightarrow> int \<times> int \<Rightarrow> error + box list \<times> real list \<times> int list"
  cast_oor :: "int \<Rightarrow> 32 word"

definition detect_image ::
  "('p, 'b) backend \<Rightarrow> int option \<times> int option \<Rightarrow> 'p image \<Rightarrow> error + 'p image \<times> string" where
  "detect_image tf a_model_image_size img =
     (case letterbox_size a_model_image_size img of
        Inl e \<Rightarrow> Inl e
      | Inr new_image_size \<Rightarrow>
          (case letterbox_image tf img new_image_size of
             Inl e \<Rightarrow> Inl e
           | Inr boxed_image \<Rightarrow>
               (case sess_run tf boxed_image (height img, width img) of
                  Inl e \<Rightarrow> Inl e
                | Inr (out_boxes, out_scores, out_classes) \<Rightarrow>
                    (case convert_result_to_str (cast_oor tf) out_boxes out_scores out_classes img of
                       Inl e \<Rightarrow> Inl e
                     | Inr out_str \<Rightarrow> Inr (img, out_str)))))"

section \<open>The batch runner: \<open>detect_img\<close>\<close>

text \<open>
  What the loop carries: the two lists and what has been written to standard output.
  What a run leaves behind: the output, the table written to the file (if it was), whether
  the session was closed, and the exception that ended the run (if one did).
\<close>

record run_state =
  names :: "string list"
  boxes_str :: "string list"
  stdout :: "string list"

record run_result =
  printed :: "string list"
  csv_file :: "(string \<times> (string \<times> string) list) option"
  session_closed :: bool
  raised :: "error option"

text \<open>
  The \<open>for\<close> loop over \<open>enumerate(file_list)\<close>. The bare \<open>except\<close> guards \<open>Image.open\<close>
  only: the \<open>else\<close> branch, with the call of \<open>yolo.detect_image\<close> (the parameter
  \<open>detect\<close>), is outside it, so an exception there leaves the loop and the function.
\<close>

fun detect_loop ::
  "'p os \<Rightarrow> ('p image \<Rightarrow> error + 'p image \<times> string) \<Rightarrow> string \<Rightarrow> nat \<Rightarrow> (nat \<times> string) list
     \<Rightarrow> run_state \<Rightarrow> error \<times> run_state + run_state" where
  "detect_loop os detect img_root n_total [] st = Inr st"
| "detect_loop os detect img_root n_total ((i, filename) # rest) st =
     (let path = path_join os img_root filename
      in if \<not> isdir os path then
           (case image_open os path of
              None \<Rightarrow>
                detect_loop os detect img_root n_total rest
                  (st\<lparr>stdout := stdout st @ [''Open Error! Try again! '' @ path @ [newline]]\<rparr>)
            | Some img \<Rightarrow>
                (case detect img of
                   Inl e \<Rightarrow> Inl (e, st)
                 | Inr (r_image, out_str) \<Rightarrow>
                     detect_loop os detect img_root n_total rest
                       (st\<lparr>names := names st @ [filename],
                           boxes_str := boxes_str st @ [out_str],
                           stdout := stdout st @
                             [[CHR 0x0D] @ ''>> i = '' @ str_int (int (i + 1)) @ '' / '' @
                              str_int (int n_total)]\<rparr>)))
         else detect_loop os detect img_root n_total rest st)"

definition detect_img ::
  "'p os \<Rightarrow> ('p image \<Rightarrow> error + 'p image \<times> string) \<Rightarrow> string \<Rightarrow> string \<Rightarrow> run_result" where
  "detect_img os detect img_root summit_dir =
     (case listdir os img_root of
        None \<Rightarrow> \<lparr>printed = [], csv_file = None, session_closed = False, raised = Some OSError\<rparr>
      | Some file_list \<Rightarrow>
          let n_total = length file_list
          in (case detect_loop os detect img_root n_total (enumerate 0 file_list)
                     \<lparr>names = [], boxes_str = [], stdout = []\<rparr> of
                Inl (e, st) \<Rightarrow>
                  \<lparr>printed = stdout st, csv_file = None, session_closed = False, raised = Some e\<rparr>
              | Inr st \<Rightarrow>
                  let out1 = stdout st @ [[newline]];
                      summit = zip (names st) (boxes_str st);
                      path = path_join os summit_dir ''summit.csv''
                  in (case csv_error os path of
                        Some e \<Rightarrow>
                          \<lparr>printed = out1, csv_file = None, session_closed = False,
                           raised = Some e\<rparr>
                      | None \<Rightarrow>
                          \<lparr>printed = out1 @ [''path = '' @ path @ [newline]],
                           csv_file = Some (path, summit), session_closed = True,
                           raised = None\<rparr>)))"

section \<open>Predicates on the files of a batch\<close>

text \<open>
  \<open>opens\<close>: the entry is not a directory and \<open>Image.open\<close> succeeds on it.
  \<open>detect_ok\<close>: if the entry is opened, \<open>detect\<close> returns on its image.
  \<open>loop_post\<close>: what the loop has done to its state when it ends normally.
\<close>

definition opens :: "'p os \<Rightarrow> string \<Rightarrow> string \<Rightarrow> bool" where
  "opens os img_root filename =
     (\<not> isdir os (path_join os img_root filename) \<and> image_open os (path_join os img_root filename) \<noteq> None)"

definition detect_ok :: "'p os \<Rightarrow> ('p image \<Rightarrow> error + 'p image \<times> string) \<Rightarrow> string \<Rightarrow> string \<Rightarrow> bool" where
  "detect_ok os detect img_root filename =
     (\<not> isdir os (path_join os img_root filename) \<longrightarrow>
        (case image_open os (path_join os img_root filename) of
           None \<Rightarrow> True
         | Some img \<Rightarrow> (case detect img of Inl e \<Rightarrow> False | Inr r \<Rightarrow> True)))"

definition loop_post :: "'p os \<Rightarrow> string \<Rightarrow> (nat \<times> string) list \<Rightarrow> run_state \<Rightarrow> run_state \<Rightarrow> bool" where
  "loop_post os img_root es st st' =
     (names st' = names st @ filter (opens os img_root) (map snd es)
      \<and> length (boxes_str st') = length (boxes_str st) + length (filter (opens os img_root) (map snd es))
      \<and> set (stdout st) \<subseteq> set (stdout st')
      \<and> (\<forall>f \<in> set (map snd es).
            \<not> isdir os (path_join os img_root f) \<and> image_open os (path_join os img_root f) = None \<longrightarrow>
            ''Open Error! Try again! '' @ path_join os img_root f @ [newline] \<in> set (stdout st')))"

section \<open>The loader as the specification words it\<close>

text \<open>
  The specification's \<open>loadClasses\<close>: "one entry per non-empty trimmed line, preserving
  order, allowing duplicate names". It is compared with \<open>get_class\<close> below.
\<close>

definition spec_loadClasses :: "string \<Rightarrow> string list" where
  "spec_loadClasses f = filter (\<lambda>entry. entry \<noteq> []) (map strip (readlines f))"

section \<open>An environment for the examples\<close>

text \<open>
  A system with the given text files, directory listings and images, where \<open>expanduser\<close>
  leaves a path as it is, a path is a directory exactly when it has a listing, joining
  puts a slash between the parts, and writing the table succeeds.
\<close>

definition example_os ::
  "(string \<Rightarrow> string option) \<Rightarrow> (string \<Rightarrow> string list option) \<Rightarrow> (string \<Rightarrow> 'p image option)
     \<Rightarrow> 'p os" where
  "example_os files dirs images =
     \<lparr>expanduser = (\<lambda>p. p), open_text = files, listdir = dirs,
      isdir = (\<lambda>p. dirs p \<noteq> None), path_join = (\<lambda>a b. a @ ''/'' @ b),
      image_open = images, csv_error = (\<lambda>p. None)\<rparr>"

text \<open>Keras where the whole model never loads and the weights always do.\<close>

definition example_keras :: "unit keras" where
  "example_keras = \<lparr>load_model = (\<lambda>p. None), load_weights = (\<lambda>b p. None),
      channels_match = (\<lambda>m a c. Inr True)\<rparr>"

text \<open>
  A backend whose session returns no detection for the pixel data 0, one detection for 1,
  and raises for anything else.
\<close>

definition example_tf :: "(nat, nat) backend" where
  "example_tf =
     \<lparr>letterbox_image = (\<lambda>img sz. Inr (pixels img)),
      sess_run = (\<lambda>b hw. if b = 0 then Inr ([], [], [])
                          else if b = 1 then Inr ([(10, 5, 50, 45)], [9 / 10], [0])
                          else Inl (ExternalError ''sess.run'')),
      cast_oor = (\<lambda>v. 0)\<rparr>"

text \<open>A directory with a file that is no image and two images; a directory whose second
  image makes the session raise.\<close>

definition example_dir :: "nat os" where
  "example_dir =
     example_os Map.empty [''imgs'' \<mapsto> [''bad.txt'', ''a.jpg'', ''b.jpg'']]
       [''imgs/a.jpg'' \<mapsto> \<lparr>width = 100, height = 100, pixels = 1\<rparr>,
        ''imgs/b.jpg'' \<mapsto> \<lparr>width = 64, height = 48, pixels = 0\<rparr>]"

definition failing_dir :: "nat os" where
  "failing_dir =
     example_os Map.empty [''imgs'' \<mapsto> [''a.jpg'', ''c.jpg'', ''b.jpg'']]
       [''imgs/a.jpg'' \<mapsto> \<lparr>width = 100, height = 100, pixels = 1\<rparr>,
        ''imgs/c.jpg'' \<mapsto> \<lparr>width = 32, height = 32, pixels = 2\<rparr>,
        ''imgs/b.jpg'' \<mapsto> \<lparr>width = 64, height = 48, pixels = 0\<rparr>]"

section \<open>Properties of the result encoder\<close>

lemma str_join_Cons: "str_join sep (x # xs) = x @ (if xs = [] then [] else sep @ str_join sep xs)"
  by (cases xs) simp_all

text \<open>The loop, run over the reversed enumeration of the classes, appends to its
  accumulator the strings of the boxes from the last index down to 0, with a semicolon
  after each but the one of index 0.\<close>

lemma convert_loop_rev_enumerate:
  "length cs \<le> length boxes \<Longrightarrow> length cs \<le> length scores \<Longrightarrow>
   convert_loop oor boxes scores img (rev (enumerate 0 cs)) out =
     Inr (out @ str_join '';'' (map (box_str oor img) (rev (take (length cs) boxes))))"
proof (induction cs arbitrary: out rule: rev_induct)
  case Nil
  show ?case by simp
next
  case (snoc c cs)
  let ?n = "length cs"
  from snoc.prems have n: "?n < length boxes" "?n < length scores" by simp_all
  have en: "rev (enumerate 0 (cs @ [c])) = (?n, c) # rev (enumerate 0 cs)"
    by (simp add: enumerate_append_eq)
  have tk: "rev (take (length (cs @ [c])) boxes) = boxes ! ?n # rev (take ?n boxes)"
    using n(1) by (simp add: take_Suc_conv_app_nth)
  have emp: "(rev (take ?n boxes) = []) = (?n = 0)"
    using n(1) by auto
  have ih: "\<And>out. convert_loop oor boxes scores img (rev (enumerate 0 cs)) out =
     Inr (out @ str_join '';'' (map (box_str oor img) (rev (take ?n boxes))))"
    using snoc.IH n by simp
  show ?case
    unfolding en tk
    using n emp by (simp add: getitem_def Let_def ih str_join_Cons del: rev_is_Nil_conv)
qed

lemma convert_result_to_str_eq:
  assumes "length classes \<le> length boxes" and "length classes \<le> length scores"
  shows "convert_result_to_str oor boxes scores classes img =
           Inr (str_join '';'' (map (box_str oor img) (rev (take (length classes) boxes))))"
  using convert_loop_rev_enumerate [OF assms, of oor img "[]"]
  by (simp add: convert_result_to_str_def)

text \<open>The equations that evaluate the encoder on literals.\<close>

lemmas encode_eval =
  box_str_def clamp_box_def np_round_def astype_int32_def fits_int32_def py_max_def py_min_def
  str_num_def str_int_def str_nat.simps digit_char_def







text \<open>
  C1. With no detection the encoder returns the empty string. With one box and one score
  for every class id, it returns the strings of the detections joined by \<open>;\<close>, and the
  string of a detection is its clamped left, its clamped top, the width (right minus left)
  and the height (bottom minus top), in decimal, joined by \<open>_\<close>. The box
  (top 10, left 5, bottom 50, right 45) on a 100 by 100 image gives \<open>5_10_40_40\<close>.
\<close>

theorem encode_format:
  "convert_result_to_str oor boxes scores [] img = Inr ''''
   \<and> (length boxes = length classes \<and> length scores = length classes \<longrightarrow>
        convert_result_to_str oor boxes scores classes img =
          Inr (str_join '';'' (map (box_str oor img) (rev boxes))))
   \<and> (clamp_box oor img bx = (c_top, c_left, c_bottom, c_right) \<longrightarrow>
        box_str oor img bx =
          str_num c_left @ ''_'' @ str_num c_top @ ''_'' @ str_num (num_sub c_right c_left) @ ''_'' @
          str_num (num_sub c_bottom c_top))
   \<and> convert_result_to_str oor [(10, 5, 50, 45)] [s] [c] \<lparr>width = 100, height = 100, pixels = p\<rparr>
        = Inr ''5_10_40_40''"
proof (intro conjI impI)
  show "convert_result_to_str oor boxes scores [] img = Inr ''''"
    by (simp add: convert_result_to_str_def)
next
  assume "length boxes = length classes \<and> length scores = length classes"
  then show "convert_result_to_str oor boxes scores classes img =
          Inr (str_join '';'' (map (box_str oor img) (rev boxes)))"
    using convert_result_to_str_eq [of classes boxes scores oor img] by simp
next
  assume "clamp_box oor img bx = (c_top, c_left, c_bottom, c_right)"
  then show "box_str oor img bx =
          str_num c_left @ ''_'' @ str_num c_top @ ''_'' @ str_num (num_sub c_right c_left) @ ''_'' @
          str_num (num_sub c_bottom c_top)"
    by (simp add: box_str_def)
next
  show "convert_result_to_str oor [(10, 5, 50, 45)] [s] [c] \<lparr>width = 100, height = 100, pixels = p\<rparr>
        = Inr ''5_10_40_40''"
    by (simp add: convert_result_to_str_def getitem_def encode_eval)
qed

theorem encode_format_witness:
  "length [(10, 5, 50, 45), (5 / 2, 7 / 2, - (3 / 2), 200 :: real)] = length [0, 3 :: int]
   \<and> length [9 / 10, 1 / 2 :: real] = length [0, 3 :: int]
   \<and> convert_result_to_str (\<lambda>v. 0) [(10, 5, 50, 45), (5 / 2, 7 / 2, - (3 / 2), 200)] [9 / 10, 1 / 2] [0, 3]
        \<lparr>width = 100, height = 100, pixels = ()\<rparr> = Inr ''4_2_96_-4;5_10_40_40''"
proof -
  let ?img = "\<lparr>width = 100, height = 100, pixels = ()\<rparr>"
  have b1: "box_str (\<lambda>v. 0) ?img (10, 5, 50, 45) = ''5_10_40_40''"
    by (simp add: encode_eval)
  have b2: "box_str (\<lambda>v. 0) ?img (5 / 2, 7 / 2, - (3 / 2), 200) = ''4_2_96_-4''"
    by (simp add: encode_eval)
  have "convert_result_to_str (\<lambda>v. 0) [(10, 5, 50, 45), (5 / 2, 7 / 2, - (3 / 2), 200)] [9 / 10, 1 / 2] [0, 3] ?img
          = Inr (str_join '';'' (map (box_str (\<lambda>v. 0) ?img) (rev [(10, 5, 50, 45), (5 / 2, 7 / 2, - (3 / 2), 200)])))"
    using encode_format [of "\<lambda>v. 0" "[(10, 5, 50, 45), (5 / 2, 7 / 2, - (3 / 2), 200)]" "[9 / 10, 1 / 2]"
      ?img "[0, 3]", THEN conjunct2, THEN conjunct1]
    by simp
  then show ?thesis by (simp add: b1 b2)
qed

text \<open>
  C3. The encoder emits the detections from the last index to the first: a detection added
  at the end of the detector's output has its string put in front of the encoding of the
  others, separated from it by \<open>;\<close>. For two detections A (index 0) and B (index 1) the
  result is the string of B, a semicolon, the string of A.
\<close>

theorem encode_reverse_order:
  "length boxes = length classes \<Longrightarrow> length scores = length classes \<Longrightarrow>
   (\<exists>rest. convert_result_to_str oor boxes scores classes img = Inr rest \<and>
      convert_result_to_str oor (boxes @ [bx]) (scores @ [s]) (classes @ [c]) img =
        Inr (box_str oor img bx @ (if classes = [] then [] else '';'' @ rest)))
   \<and> convert_result_to_str oor [bxA, bxB] [sA, sB] [cA, cB] img =
        Inr (box_str oor img bxB @ '';'' @ box_str oor img bxA)"
proof (intro conjI)
  assume len: "length boxes = length classes" "length scores = length classes"
  have a: "convert_result_to_str oor boxes scores classes img =
             Inr (str_join '';'' (map (box_str oor img) (rev boxes)))"
    using convert_result_to_str_eq [of classes boxes scores oor img] len by simp
  have b: "convert_result_to_str oor (boxes @ [bx]) (scores @ [s]) (classes @ [c]) img =
             Inr (str_join '';'' (map (box_str oor img) (rev (boxes @ [bx]))))"
    using convert_result_to_str_eq [of "classes @ [c]" "boxes @ [bx]" "scores @ [s]" oor img] len
    by simp
  have e: "(boxes = []) = (classes = [])" using len by auto
  show "\<exists>rest. convert_result_to_str oor boxes scores classes img = Inr rest \<and>
      convert_result_to_str oor (boxes @ [bx]) (scores @ [s]) (classes @ [c]) img =
        Inr (box_str oor img bx @ (if classes = [] then [] else '';'' @ rest))"
    unfolding a b using e by (simp add: str_join_Cons)
next
  show "convert_result_to_str oor [bxA, bxB] [sA, sB] [cA, cB] img =
        Inr (box_str oor img bxB @ '';'' @ box_str oor img bxA)"
    using convert_result_to_str_eq [of "[cA, cB]" "[bxA, bxB]" "[sA, sB]" oor img] by simp
qed

theorem encode_reverse_order_witness:
  "length [(10, 5, 50, 45) :: box] = length [0 :: int] \<and> length [9 / 10 :: real] = length [0 :: int]
   \<and> convert_result_to_str (\<lambda>v. 0) ([(10, 5, 50, 45)] @ [(20, 30, 60, 70)]) ([9 / 10] @ [1 / 2]) ([0] @ [3])
        \<lparr>width = 100, height = 100, pixels = ()\<rparr> = Inr ''30_20_40_40;5_10_40_40''"
proof -
  let ?img = "\<lparr>width = 100, height = 100, pixels = ()\<rparr>"
  have b1: "convert_result_to_str (\<lambda>v. 0) [(10, 5, 50, 45)] [9 / 10] [0] ?img = Inr ''5_10_40_40''"
    by (simp add: convert_result_to_str_def getitem_def encode_eval)
  have b2: "box_str (\<lambda>v. 0) ?img (20, 30, 60, 70) = ''30_20_40_40''"
    by (simp add: encode_eval)
  have "\<exists>rest. convert_result_to_str (\<lambda>v. 0) [(10, 5, 50, 45)] [9 / 10] [0] ?img = Inr rest \<and>
      convert_result_to_str (\<lambda>v. 0) ([(10, 5, 50, 45)] @ [(20, 30, 60, 70)]) ([9 / 10] @ [1 / 2]) ([0] @ [3]) ?img =
        Inr (box_str (\<lambda>v. 0) ?img (20, 30, 60, 70) @ (if [0 :: int] = [] then [] else '';'' @ rest))"
    using encode_reverse_order [of "[(10, 5, 50, 45)]" "[0]" "[9 / 10]" "\<lambda>v. 0" ?img
      "(20, 30, 60, 70)" "1 / 2" 3, THEN conjunct1]
    by simp
  then show ?thesis unfolding b1 b2 by simp
qed



section \<open>Properties of the configuration loader\<close>

text \<open>The lines \<open>readlines\<close> returns make up the text, none is empty, a line feed occurs
  only as the last character of a line, and every line but the last has one.\<close>

lemma readlines_concat: "concat (readlines f) = f"
  by (induction f) (auto split: list.splits)

lemma readlines_nonempty: "l \<in> set (readlines f) \<Longrightarrow> l \<noteq> []"
  by (induction f arbitrary: l) (auto split: list.splits if_splits)

lemma readlines_inner: "l \<in> set (readlines f) \<Longrightarrow> newline \<notin> set (butlast l)"
proof (induction f arbitrary: l)
  case Nil
  then show ?case by simp
next
  case (Cons c cs)
  show ?case
  proof (cases "c = newline")
    case True
    with Cons show ?thesis by auto
  next
    case False
    show ?thesis
    proof (cases "readlines cs")
      case Nil
      with False Cons.prems show ?thesis by simp
    next
      case (Cons m ms)
      have m: "m \<noteq> []" using readlines_nonempty [of m cs] Cons by simp
      from Cons False Cons.prems have "l = c # m \<or> l \<in> set ms" by simp
      then show ?thesis
      proof
        assume "l = c # m"
        moreover have "newline \<notin> set (butlast m)" using Cons.IH [of m] Cons by simp
        ultimately show ?thesis using False m by simp
      next
        assume "l \<in> set ms"
        then show ?thesis using Cons.IH [of l] Cons by simp
      qed
    qed
  qed
qed

lemma readlines_terminated: "l \<in> set (butlast (readlines f)) \<Longrightarrow> last l = newline"
proof (induction f arbitrary: l)
  case Nil
  then show ?case by simp
next
  case (Cons c cs)
  show ?case
  proof (cases "c = newline")
    case True
    with Cons show ?thesis by (auto split: if_splits)
  next
    case False
    show ?thesis
    proof (cases "readlines cs")
      case Nil
      with False Cons.prems show ?thesis by simp
    next
      case (Cons m ms)
      have m: "m \<noteq> []" using readlines_nonempty [of m cs] Cons by simp
      show ?thesis
      proof (cases "ms = []")
        case True
        with Cons False Cons.prems show ?thesis by simp
      next
        case ms: False
        with Cons False Cons.prems have "l = c # m \<or> l \<in> set (butlast ms)" by simp
        then show ?thesis
        proof
          assume l: "l = c # m"
          have "m \<in> set (butlast (readlines cs))" using Cons ms by simp
          then have "last m = newline" by (rule Cons.IH)
          with l m show ?thesis by simp
        next
          assume "l \<in> set (butlast ms)"
          then have "l \<in> set (butlast (readlines cs))" using Cons ms by simp
          then show ?thesis by (rule Cons.IH)
        qed
      qed
    qed
  qed
qed

lemma readlines_length:
  "length (readlines f) = count_list f newline + (if f \<noteq> [] \<and> last f \<noteq> newline then 1 else 0)"
proof (induction f)
  case Nil
  show ?case by simp
next
  case (Cons c cs)
  have e: "(readlines cs = []) = (cs = [])" by (cases cs) (auto split: list.splits)
  show ?case using Cons e
    by (cases "readlines cs") (auto split: if_splits)
qed

lemma get_class_eq:
  "open_text os (expanduser os p) = Some f \<Longrightarrow> get_class os p = Inr (map strip (readlines f))"
  by (simp add: get_class_def)

text \<open>
  C2, as stated, fails: on the text \<open>cat\<close>, line feed, line feed, \<open>dog\<close>, line feed the
  loader returns three entries, the second of them empty, where the non-empty trimmed lines
  are two.
\<close>

theorem get_class_counterexample:
  "get_class (example_os [''classes.txt'' \<mapsto> ''cat'' @ [newline, newline] @ ''dog'' @ [newline]]
       Map.empty Map.empty :: unit os) ''classes.txt''
     \<noteq> Inr (spec_loadClasses (''cat'' @ [newline, newline] @ ''dog'' @ [newline]))"
  by (simp add: get_class_def example_os_def spec_loadClasses_def strip_def isspace_def newline_def)

text \<open>
  C2, amended. For a classes file that can be read, the loader returns one entry for every
  line of the file, blank lines included (their entry is the empty string), each entry
  being the line without its surrounding white space, in file order, duplicates kept. The
  lines are the pieces of the text that end with each line feed, and the rest after the
  last one if it is not empty. Leaving out the empty entries gives the non-empty trimmed
  lines of the specification, and the two agree when no line is blank.
\<close>

theorem get_class_lines:
  "open_text os (expanduser os p) = Some f \<Longrightarrow>
   get_class os p = Inr (map strip (readlines f))
   \<and> concat (readlines f) = f
   \<and> (\<forall>l \<in> set (readlines f). l \<noteq> [] \<and> newline \<notin> set (butlast l))
   \<and> (\<forall>l \<in> set (butlast (readlines f)). last l = newline)
   \<and> length (map strip (readlines f)) =
        count_list f newline + (if f \<noteq> [] \<and> last f \<noteq> newline then 1 else 0)
   \<and> filter (\<lambda>entry. entry \<noteq> []) (map strip (readlines f)) = spec_loadClasses f
   \<and> ((\<forall>l \<in> set (readlines f). strip l \<noteq> []) \<longrightarrow> get_class os p = Inr (spec_loadClasses f))"
proof -
  assume o: "open_text os (expanduser os p) = Some f"
  have a: "get_class os p = Inr (map strip (readlines f))"
    using o by (rule get_class_eq)
  have b: "\<forall>l \<in> set (readlines f). l \<noteq> [] \<and> newline \<notin> set (butlast l)"
    using readlines_nonempty readlines_inner by blast
  have c: "\<forall>l \<in> set (butlast (readlines f)). last l = newline"
    using readlines_terminated by blast
  have d: "length (map strip (readlines f)) =
        count_list f newline + (if f \<noteq> [] \<and> last f \<noteq> newline then 1 else 0)"
    by (simp only: length_map readlines_length)
  have e: "(\<forall>l \<in> set (readlines f). strip l \<noteq> []) \<longrightarrow> get_class os p = Inr (spec_loadClasses f)"
    unfolding a spec_loadClasses_def by (simp add: filter_map comp_def)
  show ?thesis
    using a b c d e readlines_concat [of f] by (simp only: spec_loadClasses_def simp_thms)
qed

theorem get_class_lines_witness:
  "open_text (example_os [''classes.txt'' \<mapsto> ''cat'' @ [newline, newline] @ ''dog'' @ [newline, CHR ''c'', CHR ''a'', CHR ''t'']]
       Map.empty Map.empty :: unit os) ''classes.txt''
     = Some (''cat'' @ [newline, newline] @ ''dog'' @ [newline, CHR ''c'', CHR ''a'', CHR ''t''])
   \<and> get_class (example_os [''classes.txt'' \<mapsto> ''cat'' @ [newline, newline] @ ''dog'' @ [newline, CHR ''c'', CHR ''a'', CHR ''t'']]
       Map.empty Map.empty :: unit os) ''classes.txt''
     = Inr [''cat'', [], ''dog'', ''cat'']"
proof -
  let ?f = "''cat'' @ [newline, newline] @ ''dog'' @ [newline, CHR ''c'', CHR ''a'', CHR ''t'']"
  let ?os = "example_os [''classes.txt'' \<mapsto> ?f] Map.empty Map.empty :: unit os"
  have o: "open_text ?os (expanduser ?os ''classes.txt'') = Some ?f"
    by (simp add: example_os_def)
  have r: "map strip (readlines ?f) = [''cat'', [], ''dog'', ''cat'']"
    by (simp add: strip_def isspace_def newline_def)
  from get_class_lines [OF o, THEN conjunct1] have "get_class ?os ''classes.txt'' = Inr (map strip (readlines ?f))" .
  then show ?thesis unfolding r using o by (simp add: example_os_def)
qed

lemma str_split_length: "length (str_split s sep) = count_list s sep + 1"
  by (induction s) (auto split: list.splits)

lemma float_each_eq:
  "float_each float ts =
     (if \<forall>t \<in> set ts. float t \<noteq> None then Inr (map (\<lambda>t. the (float t)) ts) else Inl ValueError)"
  by (induction ts) (auto split: option.splits)

lemma float_each_Inr:
  "\<forall>t \<in> set ts. float t \<noteq> None \<Longrightarrow> float_each float ts = Inr (map (\<lambda>t. the (float t)) ts)"
  by (simp add: float_each_eq)

lemma float_each_Inl:
  "\<exists>t \<in> set ts. float t = None \<Longrightarrow> float_each float ts = Inl ValueError"
  by (simp add: float_each_eq)

lemma rows2_length: "length (rows2 xs) = length xs div 2"
  by (induction xs rule: rows2.induct) simp_all

lemma rows2_nth: "i < length xs div 2 \<Longrightarrow> rows2 xs ! i = (xs ! (2 * i), xs ! (2 * i + 1))"
proof (induction xs arbitrary: i rule: rows2.induct)
  case (1 x y zs)
  then show ?case by (cases i) simp_all
qed simp_all

text \<open>
  C5. Let the tokens be the pieces of the first line of the anchors file between its commas
  (one more than there are commas). If \<open>float\<close> accepts every token and their number is
  even, the loader returns half as many pairs, the \<open>i\<close>-th pair made of the tokens
  \<open>2 i\<close> and \<open>2 i + 1\<close>. If their number is odd, or \<open>float\<close> rejects a token, the loader
  fails with \<open>ValueError\<close>.
\<close>

theorem get_anchors_pairs:
  "open_text os (expanduser os p) = Some f \<Longrightarrow> tokens = str_split (readline f) CHR '','' \<Longrightarrow>
   length tokens = count_list (readline f) CHR '','' + 1
   \<and> ((\<forall>t \<in> set tokens. float t \<noteq> None) \<and> even (length tokens) \<longrightarrow>
        (\<exists>rows. get_anchors float os p = Inr rows \<and> length rows = length tokens div 2
           \<and> (\<forall>i < length tokens div 2.
                 rows ! i = (the (float (tokens ! (2 * i))), the (float (tokens ! (2 * i + 1)))))))
   \<and> (odd (length tokens) \<longrightarrow> get_anchors float os p = Inl ValueError)
   \<and> ((\<exists>t \<in> set tokens. float t = None) \<longrightarrow> get_anchors float os p = Inl ValueError)"
proof (intro conjI impI)
  assume o: "open_text os (expanduser os p) = Some f"
    and t: "tokens = str_split (readline f) CHR '',''"
  show "length tokens = count_list (readline f) CHR '','' + 1"
    unfolding t by (rule str_split_length)
  {
    assume "\<exists>t \<in> set tokens. float t = None"
    then show "get_anchors float os p = Inl ValueError"
      using o t float_each_Inl [of tokens float] by (simp add: get_anchors_def)
  }
  {
    assume odd: "odd (length tokens)"
    show "get_anchors float os p = Inl ValueError"
    proof (cases "\<exists>t \<in> set tokens. float t = None")
      case True
      then show ?thesis
        using o t float_each_Inl [of tokens float] by (simp add: get_anchors_def)
    next
      case False
      then have "float_each float tokens = Inr (map (\<lambda>t. the (float t)) tokens)"
        using float_each_Inr [of tokens float] by simp
      then show ?thesis using o t odd by (simp add: get_anchors_def reshape2_def)
    qed
  }
  {
    assume a: "(\<forall>t \<in> set tokens. float t \<noteq> None) \<and> even (length tokens)"
    let ?vs = "map (\<lambda>t. the (float t)) tokens"
    have fe: "float_each float tokens = Inr ?vs"
      using a float_each_Inr [of tokens float] by simp
    have g: "get_anchors float os p = Inr (rows2 ?vs)"
      using o t a fe by (simp add: get_anchors_def reshape2_def)
    have n: "\<forall>i < length tokens div 2.
               rows2 ?vs ! i = (the (float (tokens ! (2 * i))), the (float (tokens ! (2 * i + 1))))"
    proof (intro allI impI)
      fix i assume i: "i < length tokens div 2"
      then have "rows2 ?vs ! i = (?vs ! (2 * i), ?vs ! (2 * i + 1))"
        using rows2_nth [of i ?vs] by simp
      moreover have "2 * i < length tokens" "2 * i + 1 < length tokens" using i by auto
      ultimately show "rows2 ?vs ! i = (the (float (tokens ! (2 * i))), the (float (tokens ! (2 * i + 1))))"
        by simp
    qed
    show "\<exists>rows. get_anchors float os p = Inr rows \<and> length rows = length tokens div 2
           \<and> (\<forall>i < length tokens div 2.
                 rows ! i = (the (float (tokens ! (2 * i))), the (float (tokens ! (2 * i + 1)))))"
      using g n by (simp add: rows2_length)
  }
qed

theorem get_anchors_pairs_witness:
  "open_text (example_os [''anchors.txt'' \<mapsto> ''10,13,16,30''] Map.empty Map.empty :: unit os)
       (expanduser (example_os [''anchors.txt'' \<mapsto> ''10,13,16,30''] Map.empty Map.empty :: unit os)
          ''anchors.txt'')
     = Some ''10,13,16,30''
   \<and> [''10'', ''13'', ''16'', ''30''] = str_split (readline ''10,13,16,30'') CHR '',''
   \<and> get_anchors [''10'' \<mapsto> 10, ''13'' \<mapsto> 13, ''16'' \<mapsto> 16, ''30'' \<mapsto> 30 :: nat]
         (example_os [''anchors.txt'' \<mapsto> ''10,13,16,30''] Map.empty Map.empty :: unit os) ''anchors.txt''
       = Inr [(10, 13), (16, 30)]"
proof -
  let ?os = "example_os [''anchors.txt'' \<mapsto> ''10,13,16,30''] Map.empty Map.empty :: unit os"
  let ?float = "[''10'' \<mapsto> 10, ''13'' \<mapsto> 13, ''16'' \<mapsto> 16, ''30'' \<mapsto> 30 :: nat]"
  let ?tokens = "[''10'', ''13'', ''16'', ''30'']"
  have o: "open_text ?os (expanduser ?os ''anchors.txt'') = Some ''10,13,16,30''"
    by (simp add: example_os_def)
  have t: "?tokens = str_split (readline ''10,13,16,30'') CHR '',''"
    by (simp add: newline_def)
  have p: "(\<forall>t \<in> set ?tokens. ?float t \<noteq> None) \<and> even (length ?tokens)"
    by simp
  from get_anchors_pairs [OF o t, where float = ?float, THEN conjunct2, THEN conjunct1, rule_format, OF p]
  obtain rows where r: "get_anchors ?float ?os ''anchors.txt'' = Inr rows"
    and n: "length rows = length ?tokens div 2"
    and i: "\<forall>i < length ?tokens div 2.
              rows ! i = (the (?float (?tokens ! (2 * i))), the (?float (?tokens ! (2 * i + 1))))"
    by blast
  from n have n2: "length rows = 2" by simp
  from i have "rows ! 0 = (10, 13)" by simp
  moreover from i [rule_format, of 1] have "rows ! 1 = (16, 30)" by simp
  ultimately have "rows = [(10, 13), (16, 30)]"
    using n2 by (simp add: list_eq_iff_nth_eq less_Suc_eq numeral_2_eq_2)
  with r o t show ?thesis by (simp only: simp_thms)
qed

section \<open>Properties of the model provider and of the detector\<close>

text \<open>
  C6. When the path passes the assertion and loading the whole model fails, the body that
  is constructed, and into which the weights are loaded, is the tiny one exactly when there
  are 6 anchors, with 3 anchors (half of them) for each head; for any other number it is
  the full one with the number of anchors divided by 3 (integer division) for each head.
\<close>

theorem generate_fallback_variant:
  "endswith (expanduser os p) ''.h5'' \<Longrightarrow> load_model keras (expanduser os p) = None \<Longrightarrow>
   \<exists>chosen.
     generate os keras p anchs cnames =
       (case load_weights keras chosen p of Some e \<Rightarrow> Inl e | None \<Rightarrow> Inr (Constructed chosen))
     \<and> (length anchs = 6 \<longrightarrow> chosen = Tiny_yolo_body 3 (length cnames) \<and> 2 * 3 = length anchs)
     \<and> (length anchs \<noteq> 6 \<longrightarrow> chosen = Yolo_body (length anchs div 3) (length cnames))
     \<and> ((\<exists>k n. chosen = Tiny_yolo_body k n) \<longleftrightarrow> length anchs = 6)"
proof (cases "length anchs = 6")
  case True
  assume "endswith (expanduser os p) ''.h5''" "load_model keras (expanduser os p) = None"
  then have "generate os keras p anchs cnames =
       (case load_weights keras (Tiny_yolo_body 3 (length cnames)) p of
          Some e \<Rightarrow> Inl e | None \<Rightarrow> Inr (Constructed (Tiny_yolo_body 3 (length cnames))))"
    using True by (simp add: generate_def Let_def split: option.splits)
  with True show ?thesis by auto
next
  case False
  assume "endswith (expanduser os p) ''.h5''" "load_model keras (expanduser os p) = None"
  then have "generate os keras p anchs cnames =
       (case load_weights keras (Yolo_body (length anchs div 3) (length cnames)) p of
          Some e \<Rightarrow> Inl e | None \<Rightarrow> Inr (Constructed (Yolo_body (length anchs div 3) (length cnames))))"
    using False by (simp add: generate_def Let_def split: option.splits)
  with False show ?thesis by auto
qed

theorem generate_fallback_variant_witness:
  "endswith (expanduser (example_os Map.empty Map.empty Map.empty :: unit os) ''yolo.h5'') ''.h5''
   \<and> load_model example_keras (expanduser (example_os Map.empty Map.empty Map.empty :: unit os) ''yolo.h5'') = None
   \<and> generate (example_os Map.empty Map.empty Map.empty :: unit os) example_keras ''yolo.h5''
        ([(1, 2), (3, 4), (5, 6), (7, 8), (9, 10), (11, 12)] :: (nat \<times> nat) list) [''cat'', ''dog'']
      = Inr (Constructed (Tiny_yolo_body 3 2))"
proof -
  let ?os = "example_os Map.empty Map.empty Map.empty :: unit os"
  let ?a = "[(1, 2), (3, 4), (5, 6), (7, 8), (9, 10), (11, 12)] :: (nat \<times> nat) list"
  have e: "endswith (expanduser ?os ''yolo.h5'') ''.h5''"
    by (simp add: example_os_def endswith_def)
  have l: "load_model example_keras (expanduser ?os ''yolo.h5'') = None"
    by (simp add: example_keras_def)
  from generate_fallback_variant [OF e l, of ?a "[''cat'', ''dog'']"]
  obtain chosen where
    g: "generate ?os example_keras ''yolo.h5'' ?a [''cat'', ''dog''] =
       (case load_weights example_keras chosen ''yolo.h5'' of Some e \<Rightarrow> Inl e | None \<Rightarrow> Inr (Constructed chosen))"
    and c: "length ?a = 6 \<longrightarrow> chosen = Tiny_yolo_body 3 (length [''cat'', ''dog'']) \<and> 2 * 3 = length ?a"
    by blast
  from c have "chosen = Tiny_yolo_body 3 2" by simp
  with g e l show ?thesis by (simp add: example_keras_def)
qed



text \<open>
  C10. If the expanded model path does not end in \<open>.h5\<close>, \<open>generate\<close> fails with the
  assertion error whatever Keras would do, so no load is attempted; the constructor, once
  the class names and the anchors are loaded, fails with it.
\<close>

theorem generate_requires_h5:
  "\<not> endswith (expanduser os p) ''.h5'' \<Longrightarrow>
   generate os keras p anchs cnames = Inl (AssertionError ''Keras model or weights must be a .h5 file.'')
   \<and> (get_class os cp = Inr cnames \<and> get_anchors float os ap = Inr anchs2 \<longrightarrow>
        yolo_init os float keras p cp ap
          = Inl (AssertionError ''Keras model or weights must be a .h5 file.''))"
  by (simp add: generate_def yolo_init_def)

theorem generate_requires_h5_witness:
  "\<not> endswith (expanduser (example_os Map.empty Map.empty Map.empty :: unit os) ''yolo.weights'') ''.h5''
   \<and> generate (example_os Map.empty Map.empty Map.empty :: unit os) example_keras ''yolo.weights''
        [(1 :: nat, 2 :: nat)] [''cat'']
      = Inl (AssertionError ''Keras model or weights must be a .h5 file.'')"
proof -
  let ?os = "example_os Map.empty Map.empty Map.empty :: unit os"
  have e: "\<not> endswith (expanduser ?os ''yolo.weights'') ''.h5''"
    by (simp add: example_os_def endswith_def)
  from generate_requires_h5 [OF e, THEN conjunct1] e show ?thesis by simp
qed

section \<open>Properties of the batch runner\<close>

lemma detect_loop_append:
  "detect_loop os detect img_root n (xs @ ys) st =
     (case detect_loop os detect img_root n xs st of
        Inl r \<Rightarrow> Inl r
      | Inr st' \<Rightarrow> detect_loop os detect img_root n ys st')"
proof (induction xs arbitrary: st)
  case Nil
  show ?case by simp
next
  case (Cons a xs)
  obtain i f where a: "a = (i, f)" by (cases a)
  show ?case unfolding a
    by (simp add: Let_def Cons.IH split: option.splits sum.splits prod.splits)
qed

lemma detect_loop_dir:
  "isdir os (path_join os img_root f) \<Longrightarrow>
   detect_loop os detect img_root n ((i, f) # rest) st = detect_loop os detect img_root n rest st"
  by simp

lemma detect_loop_skip:
  "\<not> isdir os (path_join os img_root f) \<Longrightarrow> image_open os (path_join os img_root f) = None \<Longrightarrow>
   detect_loop os detect img_root n ((i, f) # rest) st =
     detect_loop os detect img_root n rest
       (st\<lparr>stdout := stdout st @ [''Open Error! Try again! '' @ path_join os img_root f @ [newline]]\<rparr>)"
  by simp

lemma detect_loop_step:
  "\<not> isdir os (path_join os img_root f) \<Longrightarrow> image_open os (path_join os img_root f) = Some img \<Longrightarrow>
   detect img = Inr (r_image, out_str) \<Longrightarrow>
   detect_loop os detect img_root n ((i, f) # rest) st =
     detect_loop os detect img_root n rest
       (st\<lparr>names := names st @ [f], boxes_str := boxes_str st @ [out_str],
           stdout := stdout st @
             [[CHR 0x0D] @ ''>> i = '' @ str_int (int (i + 1)) @ '' / '' @ str_int (int n)]\<rparr>)"
  by simp

lemma detect_loop_fails:
  "\<not> isdir os (path_join os img_root f) \<Longrightarrow> image_open os (path_join os img_root f) = Some img \<Longrightarrow>
   detect img = Inl e \<Longrightarrow> detect_loop os detect img_root n ((i, f) # rest) st = Inl (e, st)"
  by simp

lemma detect_loop_Inr:
  "\<forall>f \<in> snd ` set es. detect_ok os detect img_root f \<Longrightarrow>
   \<exists>st'. detect_loop os detect img_root n es st = Inr st' \<and> loop_post os img_root es st st'"
proof (induction es arbitrary: st)
  case Nil
  show ?case by (simp add: loop_post_def)
next
  case (Cons a es)
  obtain i f where a: "a = (i, f)" by (cases a)
  from Cons.prems have ok: "detect_ok os detect img_root f"
    and rest: "\<forall>f \<in> snd ` set es. detect_ok os detect img_root f"
    by (simp_all add: a)
  note ih = Cons.IH [OF rest]
  let ?path = "path_join os img_root f"
  show ?case
  proof (cases "isdir os ?path")
    case True
    then have no: "\<not> opens os img_root f" by (simp add: opens_def)
    from ih [of st] obtain st' where l: "detect_loop os detect img_root n es st = Inr st'"
      and p: "loop_post os img_root es st st'" by blast
    have "loop_post os img_root (a # es) st st'"
      using p no True unfolding a loop_post_def by simp
    with l True show ?thesis unfolding a by (simp only: detect_loop_dir) blast
  next
    case nd: False
    show ?thesis
    proof (cases "image_open os ?path")
      case None
      then have no: "\<not> opens os img_root f" by (simp add: opens_def)
      let ?st = "st\<lparr>stdout := stdout st @ [''Open Error! Try again! '' @ ?path @ [newline]]\<rparr>"
      from ih [of ?st] obtain st' where l: "detect_loop os detect img_root n es ?st = Inr st'"
        and p: "loop_post os img_root es ?st st'" by blast
      have "loop_post os img_root (a # es) st st'"
        using p no unfolding a loop_post_def by auto
      with l show ?thesis unfolding a by (simp only: detect_loop_skip [of os img_root f, OF nd None]) blast
    next
      case (Some img)
      with nd have yes: "opens os img_root f" by (simp add: opens_def)
      from ok nd Some obtain r_image out_str where d: "detect img = Inr (r_image, out_str)"
        by (auto simp: detect_ok_def split: sum.splits)
      let ?st = "st\<lparr>names := names st @ [f], boxes_str := boxes_str st @ [out_str],
                    stdout := stdout st @ [[CHR 0x0D] @ ''>> i = '' @ str_int (int (i + 1)) @ '' / '' @ str_int (int n)]\<rparr>"
      from ih [of ?st] obtain st' where l: "detect_loop os detect img_root n es ?st = Inr st'"
        and p: "loop_post os img_root es ?st st'" by blast
      have "loop_post os img_root (a # es) st st'"
        using p yes nd Some unfolding a loop_post_def by auto
      with l show ?thesis unfolding a by (simp only: detect_loop_step [of os img_root f img detect, OF nd Some d]) blast
    qed
  qed
qed

lemma detect_loop_Inr_ok:
  "detect_loop os detect img_root n es st = Inr st' \<Longrightarrow> \<forall>f \<in> snd ` set es. detect_ok os detect img_root f"
proof (induction es arbitrary: st)
  case Nil
  show ?case by simp
next
  case (Cons a es)
  obtain i f where a: "a = (i, f)" by (cases a)
  let ?path = "path_join os img_root f"
  have "detect_ok os detect img_root f \<and> (\<exists>st1. detect_loop os detect img_root n es st1 = Inr st')"
  proof (cases "isdir os ?path")
    case True
    with Cons.prems show ?thesis unfolding a by (auto simp: detect_ok_def)
  next
    case nd: False
    show ?thesis
    proof (cases "image_open os ?path")
      case None
      with nd Cons.prems show ?thesis unfolding a by (auto simp: detect_ok_def)
    next
      case (Some img)
      show ?thesis
      proof (cases "detect img")
        case (Inl e)
        with nd Some Cons.prems show ?thesis unfolding a by simp
      next
        case (Inr r)
        obtain r_image out_str where r: "r = (r_image, out_str)" by (cases r)
        from nd Some Inr Cons.prems show ?thesis unfolding a r by (auto simp: detect_ok_def)
      qed
    qed
  qed
  with Cons.IH show ?case unfolding a by auto
qed

lemma detect_img_ok:
  assumes l: "listdir os img_root = Some file_list"
    and ok: "\<forall>f \<in> set file_list. detect_ok os detect img_root f"
    and csv: "csv_error os (path_join os summit_dir ''summit.csv'') = None"
  shows "\<exists>st. detect_loop os detect img_root (length file_list) (enumerate 0 file_list)
                 \<lparr>names = [], boxes_str = [], stdout = []\<rparr> = Inr st
           \<and> loop_post os img_root (enumerate 0 file_list) \<lparr>names = [], boxes_str = [], stdout = []\<rparr> st
           \<and> detect_img os detect img_root summit_dir =
               \<lparr>printed = stdout st @ [[newline]] @
                    [''path = '' @ path_join os summit_dir ''summit.csv'' @ [newline]],
                csv_file = Some (path_join os summit_dir ''summit.csv'', zip (names st) (boxes_str st)),
                session_closed = True, raised = None\<rparr>"
proof -
  have "snd ` set (enumerate 0 file_list) = set (map snd (enumerate 0 file_list))"
    by (simp only: set_map)
  then have "snd ` set (enumerate 0 file_list) = set file_list"
    by (simp only: map_snd_enumerate)
  with ok have "\<forall>f \<in> snd ` set (enumerate 0 file_list). detect_ok os detect img_root f"
    by (simp only:)
  from detect_loop_Inr [OF this, of "length file_list" "\<lparr>names = [], boxes_str = [], stdout = []\<rparr>"]
  obtain st where st: "detect_loop os detect img_root (length file_list) (enumerate 0 file_list)
                 \<lparr>names = [], boxes_str = [], stdout = []\<rparr> = Inr st"
    and p: "loop_post os img_root (enumerate 0 file_list) \<lparr>names = [], boxes_str = [], stdout = []\<rparr> st"
    by blast
  have "detect_img os detect img_root summit_dir =
               \<lparr>printed = stdout st @ [[newline]] @
                    [''path = '' @ path_join os summit_dir ''summit.csv'' @ [newline]],
                csv_file = Some (path_join os summit_dir ''summit.csv'', zip (names st) (boxes_str st)),
                session_closed = True, raised = None\<rparr>"
    using l st csv by (simp add: detect_img_def Let_def)
  with st p show ?thesis by blast
qed

text \<open>
  C7. A file that is not a directory and that \<open>Image.open\<close> rejects makes the loop print
  the message \<open>Open Error! Try again!\<close> with its path and go on with the next file, the
  lists of names and encodings unchanged. If the detector returns on every image that is
  opened and the table can be written, the table has one row for every file that opens,
  in the order of the listing, and none for the others, and the message of every rejected
  file has been printed. So a directory with one file that is no image and two images
  gives a table of exactly two rows.
\<close>

theorem batch_skips_unopenable:
  "(\<not> isdir os (path_join os img_root f) \<and> image_open os (path_join os img_root f) = None \<longrightarrow>
      detect_loop os detect img_root n ((i, f) # rest) st =
        detect_loop os detect img_root n rest
          (st\<lparr>stdout := stdout st @ [''Open Error! Try again! '' @ path_join os img_root f @ [newline]]\<rparr>))
   \<and> (listdir os img_root = Some file_list
        \<and> (\<forall>g \<in> set file_list. detect_ok os detect img_root g)
        \<and> csv_error os (path_join os summit_dir ''summit.csv'') = None \<longrightarrow>
      (\<exists>rows. csv_file (detect_img os detect img_root summit_dir)
                 = Some (path_join os summit_dir ''summit.csv'', rows)
         \<and> map fst rows = filter (opens os img_root) file_list
         \<and> length rows = length (filter (opens os img_root) file_list))
      \<and> raised (detect_img os detect img_root summit_dir) = None
      \<and> (\<forall>g \<in> set file_list.
            \<not> isdir os (path_join os img_root g) \<and> image_open os (path_join os img_root g) = None \<longrightarrow>
            ''Open Error! Try again! '' @ path_join os img_root g @ [newline]
              \<in> set (printed (detect_img os detect img_root summit_dir))))"
proof (intro conjI impI)
  assume "\<not> isdir os (path_join os img_root f) \<and> image_open os (path_join os img_root f) = None"
  then show "detect_loop os detect img_root n ((i, f) # rest) st =
        detect_loop os detect img_root n rest
          (st\<lparr>stdout := stdout st @ [''Open Error! Try again! '' @ path_join os img_root f @ [newline]]\<rparr>)"
    by simp
next
  assume a: "listdir os img_root = Some file_list
        \<and> (\<forall>g \<in> set file_list. detect_ok os detect img_root g)
        \<and> csv_error os (path_join os summit_dir ''summit.csv'') = None"
  then obtain st where
    p: "loop_post os img_root (enumerate 0 file_list) \<lparr>names = [], boxes_str = [], stdout = []\<rparr> st"
    and r: "detect_img os detect img_root summit_dir =
               \<lparr>printed = stdout st @ [[newline]] @
                    [''path = '' @ path_join os summit_dir ''summit.csv'' @ [newline]],
                csv_file = Some (path_join os summit_dir ''summit.csv'', zip (names st) (boxes_str st)),
                session_closed = True, raised = None\<rparr>"
    using detect_img_ok [of os img_root file_list detect summit_dir] by blast
  from p have n: "names st = filter (opens os img_root) file_list"
    and b: "length (boxes_str st) = length (filter (opens os img_root) file_list)"
    and m: "\<forall>g \<in> set file_list.
            \<not> isdir os (path_join os img_root g) \<and> image_open os (path_join os img_root g) = None \<longrightarrow>
            ''Open Error! Try again! '' @ path_join os img_root g @ [newline] \<in> set (stdout st)"
    by (simp_all add: loop_post_def)
  show "\<exists>rows. csv_file (detect_img os detect img_root summit_dir)
                 = Some (path_join os summit_dir ''summit.csv'', rows)
         \<and> map fst rows = filter (opens os img_root) file_list
         \<and> length rows = length (filter (opens os img_root) file_list)"
    unfolding r using n b by simp
  show "raised (detect_img os detect img_root summit_dir) = None"
    unfolding r by simp
  show "\<forall>g \<in> set file_list.
            \<not> isdir os (path_join os img_root g) \<and> image_open os (path_join os img_root g) = None \<longrightarrow>
            ''Open Error! Try again! '' @ path_join os img_root g @ [newline]
              \<in> set (printed (detect_img os detect img_root summit_dir))"
    unfolding r using m by simp
qed

lemmas example_eval =
  example_dir_def example_os_def example_tf_def detect_image_def letterbox_size_def
  convert_result_to_str_def getitem_def newline_def

lemma example_dir_run:
  "detect_img example_dir (detect_image example_tf (Some 416, Some 416)) ''imgs'' ''out'' =
     \<lparr>printed = [''Open Error! Try again! imgs/bad.txt'' @ [CHR 0x0A],
                 [CHR 0x0D] @ ''>> i = 2 / 3'', [CHR 0x0D] @ ''>> i = 3 / 3'', [CHR 0x0A],
                 ''path = out/summit.csv'' @ [CHR 0x0A]],
      csv_file = Some (''out/summit.csv'', [(''a.jpg'', ''5_10_40_40''), (''b.jpg'', '''')]),
      session_closed = True, raised = None\<rparr>"
  by (simp add: detect_img_def example_eval encode_eval)

theorem batch_skips_unopenable_witness:
  "listdir example_dir ''imgs'' = Some [''bad.txt'', ''a.jpg'', ''b.jpg'']
   \<and> \<not> isdir example_dir (path_join example_dir ''imgs'' ''bad.txt'')
   \<and> image_open example_dir (path_join example_dir ''imgs'' ''bad.txt'') = None
   \<and> csv_error example_dir (path_join example_dir ''out'' ''summit.csv'') = None
   \<and> csv_file (detect_img example_dir (detect_image example_tf (Some 416, Some 416)) ''imgs'' ''out'')
       = Some (''out/summit.csv'', [(''a.jpg'', ''5_10_40_40''), (''b.jpg'', '''')])
   \<and> ''Open Error! Try again! imgs/bad.txt'' @ [newline]
       \<in> set (printed (detect_img example_dir (detect_image example_tf (Some 416, Some 416)) ''imgs'' ''out''))"
proof -
  let ?detect = "detect_image example_tf (Some 416, Some 416)"
  let ?files = "[''bad.txt'', ''a.jpg'', ''b.jpg'']"
  have l: "listdir example_dir ''imgs'' = Some ?files"
    by (simp add: example_dir_def example_os_def)
  have ok: "\<forall>g \<in> set ?files. detect_ok example_dir ?detect ''imgs'' g"
    by (simp add: detect_ok_def example_eval encode_eval)
  have c: "csv_error example_dir (path_join example_dir ''out'' ''summit.csv'') = None"
    by (simp add: example_dir_def example_os_def)
  have b: "\<not> isdir example_dir (path_join example_dir ''imgs'' ''bad.txt'')
           \<and> image_open example_dir (path_join example_dir ''imgs'' ''bad.txt'') = None"
    by (simp add: example_dir_def example_os_def)
  have bad: "''bad.txt'' \<in> set ?files" by simp
  from batch_skips_unopenable [where os = example_dir and img_root = "''imgs''" and detect = ?detect
      and file_list = ?files and summit_dir = "''out''",
      THEN conjunct2, rule_format, OF conjI [OF l conjI [OF ok c]]]
  have m: "\<forall>g \<in> set ?files.
            \<not> isdir example_dir (path_join example_dir ''imgs'' g)
            \<and> image_open example_dir (path_join example_dir ''imgs'' g) = None \<longrightarrow>
            ''Open Error! Try again! '' @ path_join example_dir ''imgs'' g @ [newline]
              \<in> set (printed (detect_img example_dir ?detect ''imgs'' ''out''))"
    by blast
  have p: "path_join example_dir ''imgs'' ''bad.txt'' = ''imgs/bad.txt''"
    by (simp add: example_dir_def example_os_def)
  from m [rule_format, OF bad b]
  have "''Open Error! Try again! imgs/bad.txt'' @ [newline]
       \<in> set (printed (detect_img example_dir ?detect ''imgs'' ''out''))"
    unfolding p by simp
  with l b c show ?thesis by (simp add: example_dir_run)
qed

text \<open>
  C8. If the detector raises on the image of a file, the files before it having been
  handled, the run ends with that exception: no table is written, the session is not
  closed, and what has been printed is what the loop printed for the files before it;
  the files after it are not looked at. The session is closed only if no exception ended
  the run, the table was written, and the detector returned on every image that was opened.
\<close>

theorem batch_aborts_on_detect_failure:
  "(listdir os img_root = Some (pre @ f # post)
      \<and> (\<forall>g \<in> set pre. detect_ok os detect img_root g)
      \<and> \<not> isdir os (path_join os img_root f)
      \<and> image_open os (path_join os img_root f) = Some img
      \<and> detect img = Inl e \<longrightarrow>
        raised (detect_img os detect img_root summit_dir) = Some e
        \<and> csv_file (detect_img os detect img_root summit_dir) = None
        \<and> \<not> session_closed (detect_img os detect img_root summit_dir)
        \<and> (\<exists>st. detect_loop os detect img_root (length (pre @ f # post)) (enumerate 0 pre)
                     \<lparr>names = [], boxes_str = [], stdout = []\<rparr> = Inr st
               \<and> printed (detect_img os detect img_root summit_dir) = stdout st))
   \<and> (session_closed (detect_img os detect img_root summit_dir) \<longrightarrow>
        raised (detect_img os detect img_root summit_dir) = None
        \<and> csv_file (detect_img os detect img_root summit_dir) \<noteq> None
        \<and> (\<exists>file_list. listdir os img_root = Some file_list
              \<and> (\<forall>g \<in> set file_list. detect_ok os detect img_root g)))"
proof (intro conjI impI)
  let ?st0 = "\<lparr>names = [], boxes_str = [], stdout = []\<rparr>"
  let ?res = "detect_img os detect img_root summit_dir"
  {
    assume a: "listdir os img_root = Some (pre @ f # post)
      \<and> (\<forall>g \<in> set pre. detect_ok os detect img_root g)
      \<and> \<not> isdir os (path_join os img_root f)
      \<and> image_open os (path_join os img_root f) = Some img
      \<and> detect img = Inl e"
    let ?n = "length (pre @ f # post)"
    have en: "enumerate 0 (pre @ f # post)
                = enumerate 0 pre @ (length pre, f) # enumerate (Suc (length pre)) post"
      by (simp add: enumerate_append_eq)
    have "set (map snd (enumerate 0 pre)) = set pre"
      by (simp only: map_snd_enumerate)
    then have "snd ` set (enumerate 0 pre) = set pre"
      by (simp only: set_map)
    moreover from a have "\<forall>g \<in> set pre. detect_ok os detect img_root g"
      by blast
    ultimately have "\<forall>g \<in> snd ` set (enumerate 0 pre). detect_ok os detect img_root g"
      by (simp only:)
    from detect_loop_Inr [OF this, of ?n ?st0]
    obtain st where st: "detect_loop os detect img_root ?n (enumerate 0 pre) ?st0 = Inr st"
      by blast
    have f: "detect_loop os detect img_root ?n
               ((length pre, f) # enumerate (Suc (length pre)) post) st = Inl (e, st)"
      using a by (intro detect_loop_fails [of os img_root f img detect e]) simp_all
    have lp: "detect_loop os detect img_root ?n (enumerate 0 (pre @ f # post)) ?st0 = Inl (e, st)"
      unfolding en detect_loop_append st using f by simp
    have r: "?res = \<lparr>printed = stdout st, csv_file = None, session_closed = False, raised = Some e\<rparr>"
      using a lp by (simp add: detect_img_def Let_def)
    show "raised ?res = Some e" "csv_file ?res = None" "\<not> session_closed ?res"
      unfolding r by simp_all
    show "\<exists>st. detect_loop os detect img_root ?n (enumerate 0 pre) ?st0 = Inr st
               \<and> printed ?res = stdout st"
      unfolding r using st by simp
  }
  {
    assume c: "session_closed ?res"
    then obtain file_list where l: "listdir os img_root = Some file_list"
      by (cases "listdir os img_root") (simp_all add: detect_img_def)
    from c l obtain st where
      st: "detect_loop os detect img_root (length file_list) (enumerate 0 file_list) ?st0 = Inr st"
      by (cases "detect_loop os detect img_root (length file_list) (enumerate 0 file_list) ?st0")
         (auto simp: detect_img_def Let_def)
    from c l st have csv: "csv_error os (path_join os summit_dir ''summit.csv'') = None"
      by (cases "csv_error os (path_join os summit_dir ''summit.csv'')")
         (simp_all add: detect_img_def Let_def)
    show "raised ?res = None" "csv_file ?res \<noteq> None"
      using l st csv by (simp_all add: detect_img_def Let_def)
    have "set (map snd (enumerate 0 file_list)) = set file_list"
      by (simp only: map_snd_enumerate)
    then have "snd ` set (enumerate 0 file_list) = set file_list"
      by (simp only: set_map)
    with detect_loop_Inr_ok [OF st] have "\<forall>g \<in> set file_list. detect_ok os detect img_root g"
      by (simp only:)
    with l show "\<exists>file_list. listdir os img_root = Some file_list
              \<and> (\<forall>g \<in> set file_list. detect_ok os detect img_root g)"
      by blast
  }
qed

theorem batch_aborts_on_detect_failure_witness:
  "listdir failing_dir ''imgs'' = Some ([''a.jpg''] @ ''c.jpg'' # [''b.jpg''])
   \<and> \<not> isdir failing_dir (path_join failing_dir ''imgs'' ''c.jpg'')
   \<and> image_open failing_dir (path_join failing_dir ''imgs'' ''c.jpg'')
        = Some \<lparr>width = 32, height = 32, pixels = 2\<rparr>
   \<and> detect_image example_tf (Some 416, Some 416) \<lparr>width = 32, height = 32, pixels = 2\<rparr>
        = Inl (ExternalError ''sess.run'')
   \<and> raised (detect_img failing_dir (detect_image example_tf (Some 416, Some 416)) ''imgs'' ''out'')
        = Some (ExternalError ''sess.run'')
   \<and> csv_file (detect_img failing_dir (detect_image example_tf (Some 416, Some 416)) ''imgs'' ''out'') = None
   \<and> \<not> session_closed (detect_img failing_dir (detect_image example_tf (Some 416, Some 416)) ''imgs'' ''out'')"
proof -
  let ?detect = "detect_image example_tf (Some 416, Some 416)"
  let ?img = "\<lparr>width = 32, height = 32, pixels = 2 :: nat\<rparr>"
  have l: "listdir failing_dir ''imgs'' = Some ([''a.jpg''] @ ''c.jpg'' # [''b.jpg''])"
    by (simp add: failing_dir_def example_os_def)
  have ok: "\<forall>g \<in> set [''a.jpg'']. detect_ok failing_dir ?detect ''imgs'' g"
    by (simp add: detect_ok_def failing_dir_def example_os_def example_tf_def detect_image_def
          letterbox_size_def convert_result_to_str_def getitem_def encode_eval)
  have d: "\<not> isdir failing_dir (path_join failing_dir ''imgs'' ''c.jpg'')"
    by (simp add: failing_dir_def example_os_def)
  have i: "image_open failing_dir (path_join failing_dir ''imgs'' ''c.jpg'') = Some ?img"
    by (simp add: failing_dir_def example_os_def)
  have e: "?detect ?img = Inl (ExternalError ''sess.run'')"
    by (simp add: example_tf_def detect_image_def letterbox_size_def)
  note t = batch_aborts_on_detect_failure [where os = failing_dir and img_root = "''imgs''"
      and pre = "[''a.jpg'']" and f = "''c.jpg''" and post = "[''b.jpg'']" and detect = ?detect
      and img = ?img and e = "ExternalError ''sess.run''" and summit_dir = "''out''",
      THEN conjunct1, rule_format, OF conjI [OF l conjI [OF ok conjI [OF d conjI [OF i e]]]]]
  from t l d i e show ?thesis by blast
qed

end
